theory Spec2Isabelle
  imports Complex_Main
begin

section \<open>Data model\<close>

text \<open>
  JavaScript numbers are modelled as rationals: counts and lengths are naturals embedded
  with \<open>of_nat\<close>, and every quotient is the exact one. An optional field of an interface
  (\<open>field?: T\<close>) is an \<open>option\<close>, \<open>None\<close> standing for \<open>undefined\<close>.
\<close>

type_synonym num = rat

text \<open>
  \<open>ChatLog\<close> (analyticsService): the fields read by the functions modelled below.
  \<open>responseTime\<close> and \<open>appVersion\<close> are the entries \<open>metadata?.responseTime\<close> and
  \<open>metadata?.appVersion\<close> of the metadata bag. A timestamp is the time value of a valid
  \<open>Date\<close>, in milliseconds since the epoch.
\<close>

record ChatLog =
  conversationId :: "string option"
  userMessage :: "string option"
  timestamp :: "int option"
  resolved :: "bool option"
  category :: "string option"
  error :: "bool option"
  platform :: "string option"
  responseTime :: "num option"
  appVersion :: "string option"

record ResponseTimeStats =
  average :: num
  median :: num
  p95 :: num
  p99 :: num

subsection \<open>Truthiness and array reads\<close>

text \<open>\<open>if (x)\<close> on an optional number: \<open>undefined\<close> and \<open>0\<close> are falsy.\<close>

definition truthyNum :: "num option \<Rightarrow> bool" where
  "truthyNum v = (case v of None \<Rightarrow> False | Some x \<Rightarrow> x \<noteq> 0)"

text \<open>\<open>if (s)\<close> on an optional string: \<open>undefined\<close> and the empty string are falsy.\<close>

definition truthyStr :: "string option \<Rightarrow> bool" where
  "truthyStr v = (case v of None \<Rightarrow> False | Some s \<Rightarrow> s \<noteq> [])"

text \<open>\<open>xs[i]\<close>: reading past the end of an array gives \<open>undefined\<close>, here \<open>None\<close>.\<close>

definition arrayAt :: "'a list \<Rightarrow> nat \<Rightarrow> 'a option" where
  "arrayAt xs i = (if i < length xs then Some (xs ! i) else None)"

section \<open>Statistics Engine (AnalyticsService)\<close>

subsection \<open>Rates\<close>

definition calculateResolvedRate :: "ChatLog list \<Rightarrow> num" where
  "calculateResolvedRate logs =
     (if length logs = 0 then 0
      else (of_nat (length (filter (\<lambda>lg. resolved lg = Some True) logs))
              / of_nat (length logs)) * 100)"

definition calculateErrorRate :: "ChatLog list \<Rightarrow> num" where
  "calculateErrorRate logs =
     (if length logs = 0 then 0
      else (of_nat (length (filter (\<lambda>lg. error lg = Some True) logs))
              / of_nat (length logs)) * 100)"

subsection \<open>Response times\<close>

text \<open>The \<open>forEach\<close> that pushes every truthy \<open>metadata?.responseTime\<close>.\<close>

fun collectResponseTimes :: "ChatLog list \<Rightarrow> num list" where
  "collectResponseTimes [] = []"
| "collectResponseTimes (lg # logs) =
     (if truthyNum (responseTime lg)
      then the (responseTime lg) # collectResponseTimes logs
      else collectResponseTimes logs)"

text \<open>
  \<open>Math.floor(n * 0.95)\<close> and \<open>Math.floor(n * 0.99)\<close> for an array length \<open>n\<close>. The
  doubles nearest to 0.95 and 0.99 lie below them by a relative error under \<open>2^-54\<close>, so
  the double product rounds to the exact integer whenever \<open>n * 0.95\<close> (or \<open>n * 0.99\<close>)
  is one, and is at least 1/100 away from an integer otherwise: the floor of the double
  product is the floor of the exact product.
\<close>

definition idxMedian :: "nat \<Rightarrow> nat" where
  "idxMedian n = nat \<lfloor>(of_nat n :: rat) / 2\<rfloor>"

definition idxP95 :: "nat \<Rightarrow> nat" where
  "idxP95 n = nat \<lfloor>(of_nat n :: rat) * (95 / 100)\<rfloor>"

definition idxP99 :: "nat \<Rightarrow> nat" where
  "idxP99 n = nat \<lfloor>(of_nat n :: rat) * (99 / 100)\<rfloor>"

text \<open>
  \<open>analyzeResponseTimes\<close>. \<open>sort((a, b) => a - b)\<close> is the ascending sort of the numbers.
  The three array reads are \<open>arrayAt\<close>; a read past the end would store \<open>undefined\<close> in a
  field declared \<open>number\<close>, and the model returns \<open>None\<close> for it.
\<close>

definition analyzeResponseTimes :: "ChatLog list \<Rightarrow> ResponseTimeStats option" where
  "analyzeResponseTimes logs =
     (let responseTimes = collectResponseTimes logs in
      if length responseTimes = 0
      then Some \<lparr>average = 0, median = 0, p95 = 0, p99 = 0\<rparr>
      else
        let sorted = sort responseTimes;
            n = length sorted;
            avg = sum_list sorted / of_nat n
        in case (arrayAt sorted (idxMedian n), arrayAt sorted (idxP95 n), arrayAt sorted (idxP99 n)) of
             (Some m, Some a, Some b) \<Rightarrow> Some \<lparr>average = avg, median = m, p95 = a, p99 = b\<rparr>
           | _ \<Rightarrow> None)"

subsection \<open>Hourly distribution\<close>

text \<open>
  \<open>new Date(t).getHours()\<close> is the hour of the local time: with \<open>tz t\<close> the offset of
  the local time zone at \<open>t\<close> in milliseconds, it is \<open>floor((t + tz t) / msPerHour)\<close>
  modulo 24. The zone is the host's, so \<open>tz\<close> is a parameter. \<open>HourlyCount\<close> has the
  fields \<open>hour\<close> and \<open>count\<close> (here \<open>hcount\<close>).
\<close>

record HourlyCount =
  hour :: nat
  hcount :: nat


text \<open>\<open>map.get(k) || 0\<close> on a map of counts.\<close>

definition natOr0 :: "nat option \<Rightarrow> nat" where
  "natOr0 v = (case v of None \<Rightarrow> 0 | Some c \<Rightarrow> c)"




subsection \<open>Sample inputs\<close>

definition emptyLog :: ChatLog where
  "emptyLog = \<lparr>conversationId = None, userMessage = None, timestamp = None,
     resolved = None, category = None, error = None, platform = None,
     responseTime = None, appVersion = None\<rparr>"

definition rateLogs :: "ChatLog list" where
  "rateLogs = [emptyLog\<lparr>resolved := Some True\<rparr>, emptyLog\<lparr>resolved := Some False, error := Some True\<rparr>,
               emptyLog, emptyLog\<lparr>error := Some True\<rparr>]"

definition rtLogs :: "ChatLog list" where
  "rtLogs = [emptyLog\<lparr>responseTime := Some 300\<rparr>, emptyLog, emptyLog\<lparr>responseTime := Some 0\<rparr>,
             emptyLog\<lparr>responseTime := Some 100\<rparr>, emptyLog\<lparr>responseTime := Some 200\<rparr>]"


section \<open>Containers\<close>

text \<open>
  A JavaScript \<open>Map\<close> iterates its entries in insertion order, and \<open>set\<close> on a key that
  is present replaces the value in place: a list of entries, oldest first.
\<close>

fun mapGet :: "('k \<times> 'v) list \<Rightarrow> 'k \<Rightarrow> 'v option" where
  "mapGet [] k = None"
| "mapGet ((k', v) # m) k = (if k' = k then Some v else mapGet m k)"

fun mapSet :: "('k \<times> 'v) list \<Rightarrow> 'k \<Rightarrow> 'v \<Rightarrow> ('k \<times> 'v) list" where
  "mapSet [] k v = [(k, v)]"
| "mapSet ((k', v') # m) k v = (if k' = k then (k', v) # m else (k', v') # mapSet m k v)"

text \<open>
  \<open>Array.prototype.sort(cmp)\<close> is stable. For a comparator that is a total preorder the
  stable result is unique; it is computed here by inserting from the right, each element
  in front of the first one it does not follow.
\<close>

fun insertBy :: "('a \<Rightarrow> 'a \<Rightarrow> int) \<Rightarrow> 'a \<Rightarrow> 'a list \<Rightarrow> 'a list" where
  "insertBy cmp x [] = [x]"
| "insertBy cmp x (y # ys) = (if cmp x y \<le> 0 then x # y # ys else y # insertBy cmp x ys)"

definition sortBy :: "('a \<Rightarrow> 'a \<Rightarrow> int) \<Rightarrow> 'a list \<Rightarrow> 'a list" where
  "sortBy cmp xs = foldr (insertBy cmp) xs []"

section \<open>Statistics Engine: breakdowns\<close>

text \<open>
  \<open>CategoryCount\<close>, \<open>PlatformCount\<close> and \<open>VersionCount\<close> each have the fields
  \<open>count\<close> and \<open>percentage\<close> beside their key; the fields carry a prefix here to keep
  them apart.
\<close>

record CategoryCount =
  cc_category :: string
  cc_count :: nat
  cc_percentage :: num

record PlatformCount =
  pc_platform :: string
  pc_count :: nat
  pc_percentage :: num

record VersionCount =
  vc_version :: string
  vc_count :: nat
  vc_percentage :: num

text \<open>\<open>m.set(k, (m.get(k) || 0) + 1)\<close>.\<close>

definition bump :: "(string \<times> nat) list \<Rightarrow> string \<Rightarrow> (string \<times> nat) list" where
  "bump m k = mapSet m k (natOr0 (mapGet m k) + 1)"

text \<open>
  The counting loop shared by the three breakdowns:
  \<open>logs.forEach(log => { if (log.f) m.set(log.f, (m.get(log.f) || 0) + 1) })\<close>.
\<close>

definition countBy :: "(ChatLog \<Rightarrow> string option) \<Rightarrow> ChatLog list \<Rightarrow> (string \<times> nat) list" where
  "countBy field logs =
     fold (\<lambda>lg m. if truthyStr (field lg) then bump m (the (field lg)) else m) logs []"

definition getTopCategories :: "ChatLog list \<Rightarrow> CategoryCount list" where
  "getTopCategories logs =
     (let categoryMap = countBy category logs;
          total = length logs
      in take 10 (sortBy (\<lambda>a b. int (cc_count b) - int (cc_count a))
           (map (\<lambda>(c, n). \<lparr>cc_category = c, cc_count = n,
                            cc_percentage = (of_nat n / of_nat total) * 100\<rparr>) categoryMap)))"

definition getPlatformDistribution :: "ChatLog list \<Rightarrow> PlatformCount list" where
  "getPlatformDistribution logs =
     (let platformMap = countBy platform logs;
          total = length logs
      in sortBy (\<lambda>a b. int (pc_count b) - int (pc_count a))
           (map (\<lambda>(p, n). \<lparr>pc_platform = p, pc_count = n,
                            pc_percentage = (of_nat n / of_nat total) * 100\<rparr>) platformMap))"

definition getAppVersions :: "ChatLog list \<Rightarrow> VersionCount list" where
  "getAppVersions logs =
     (let versionMap = countBy appVersion logs;
          total = length logs
      in take 10 (sortBy (\<lambda>a b. int (vc_count b) - int (vc_count a))
           (map (\<lambda>(v, n). \<lparr>vc_version = v, vc_count = n,
                            vc_percentage = (of_nat n / of_nat total) * 100\<rparr>) versionMap)))"

text \<open>The keys counted by a loop, in order: the loop as a fold over them.\<close>

definition bumpAll :: "string list \<Rightarrow> (string \<times> nat) list \<Rightarrow> (string \<times> nat) list" where
  "bumpAll ks m = fold (\<lambda>k m. bump m k) ks m"

definition catLogs :: "ChatLog list" where
  "catLogs = [emptyLog\<lparr>category := Some ''help'', platform := Some ''ios''\<rparr>,
              emptyLog\<lparr>category := Some ''billing''\<rparr>,
              emptyLog\<lparr>category := Some '''', appVersion := Some ''1.2''\<rparr>,
              emptyLog\<lparr>category := Some ''billing'', platform := Some ''ios''\<rparr>]"

section \<open>Cross-Session Aggregator (OpenAIAnalysisService.aggregateAnalyses)\<close>

text \<open>
  The string-literal unions of the interfaces are datatypes. \<open>ImprovementSuggestion\<close> has
  a field \<open>category\<close>, here \<open>is_category\<close>. Of \<open>FlowAnalysis\<close> and
  \<open>ConversationAnalysis\<close> the fields read by the two aggregations below are kept.
\<close>

datatype SatisfactionTrend = Improving | Declining | StableSat

datatype SuggestionCategory = Knowledge | Response | Flow | Clarification

datatype Priority = High | Medium | Low

record FlowAnalysis =
  topicChanges :: int
  userSatisfactionTrend :: SatisfactionTrend
  conversationQuality :: num
  misunderstandings :: "string list"

record ImprovementSuggestion =
  is_category :: SuggestionCategory
  issue :: string
  suggestion :: string
  priority :: Priority
  examples :: "string list"

record ConversationAnalysis =
  conversationFlow :: FlowAnalysis
  improvementSuggestions :: "ImprovementSuggestion list"

record ConversationPattern =
  pattern :: string
  frequency :: nat
  averageQuality :: num
  commonIssues :: "string list"

text \<open>The decimal digits of an integer, as a template literal prints a whole number.\<close>

definition digitChar :: "nat \<Rightarrow> char" where
  "digitChar d = ''0123456789'' ! d"

fun showNat :: "nat \<Rightarrow> string" where
  "showNat n = (if n < 10 then [digitChar n] else showNat (n div 10) @ [digitChar (n mod 10)])"

declare showNat.simps [simp del]

definition showInt :: "int \<Rightarrow> string" where
  "showInt i = (if i < 0 then CHR ''-'' # showNat (nat (- i)) else showNat (nat i))"

subsection \<open>Flow patterns\<close>

fun satisfactionStr :: "SatisfactionTrend \<Rightarrow> string" where
  "satisfactionStr Improving = ''improving''"
| "satisfactionStr Declining = ''declining''"
| "satisfactionStr StableSat = ''stable''"

definition flowKey :: "ConversationAnalysis \<Rightarrow> string" where
  "flowKey a = satisfactionStr (userSatisfactionTrend (conversationFlow a)) @ ''_''
                 @ showInt (topicChanges (conversationFlow a)) @ ''topics''"

text \<open>One iteration of the \<open>forEach\<close> over the analyses.\<close>

definition flowStep :: "(string \<times> ConversationPattern) list \<Rightarrow> ConversationAnalysis
                         \<Rightarrow> (string \<times> ConversationPattern) list" where
  "flowStep flowPatterns a =
     (let p = flowKey a;
          existing = (case mapGet flowPatterns p of
                        Some e \<Rightarrow> e
                      | None \<Rightarrow> \<lparr>pattern = p, frequency = 0, averageQuality = 0, commonIssues = []\<rparr>)
      in mapSet flowPatterns p
           (existing\<lparr>frequency := frequency existing + 1,
                     averageQuality := (averageQuality existing
                                          + conversationQuality (conversationFlow a)) / 2,
                     commonIssues := commonIssues existing @ misunderstandings (conversationFlow a)\<rparr>))"

definition flowPatternsOf :: "ConversationAnalysis list \<Rightarrow> (string \<times> ConversationPattern) list" where
  "flowPatternsOf analyses = fold (\<lambda>a m. flowStep m a) analyses []"

definition conversationPatterns :: "ConversationAnalysis list \<Rightarrow> ConversationPattern list" where
  "conversationPatterns analyses =
     take 10 (sortBy (\<lambda>a b. int (frequency b) - int (frequency a))
                (map snd (flowPatternsOf analyses)))"

text \<open>
  The naive two-point running average over a sequence of scores, and the scores of the
  analyses that fall under a pattern, in order.
\<close>

definition runningAverage :: "num list \<Rightarrow> num" where
  "runningAverage qs = foldl (\<lambda>avg q. (avg + q) / 2) 0 qs"

definition qualitiesOf :: "string \<Rightarrow> ConversationAnalysis list \<Rightarrow> num list" where
  "qualitiesOf k analyses =
     map (\<lambda>a. conversationQuality (conversationFlow a)) (filter (\<lambda>a. flowKey a = k) analyses)"

text \<open>The state of the flow-pattern map after a prefix of the analyses.\<close>

definition flowInv :: "ConversationAnalysis list \<Rightarrow> (string \<times> ConversationPattern) list \<Rightarrow> bool" where
  "flowInv analyses m \<longleftrightarrow>
     distinct (map fst m) \<and> fst ` set m = flowKey ` set analyses \<and>
     (\<forall>(k, e) \<in> set m. pattern e = k \<and> averageQuality e = runningAverage (qualitiesOf k analyses)
                         \<and> frequency e = length (qualitiesOf k analyses))"

definition flowEx :: "ConversationAnalysis list" where
  "flowEx =
    [\<lparr>conversationFlow = \<lparr>topicChanges = 2, userSatisfactionTrend = Improving,
                          conversationQuality = 80, misunderstandings = [''a'']\<rparr>,
      improvementSuggestions = []\<rparr>,
     \<lparr>conversationFlow = \<lparr>topicChanges = 0, userSatisfactionTrend = Declining,
                          conversationQuality = 60, misunderstandings = []\<rparr>,
      improvementSuggestions = []\<rparr>,
     \<lparr>conversationFlow = \<lparr>topicChanges = 2, userSatisfactionTrend = Improving,
                          conversationQuality = 40, misunderstandings = [''b'']\<rparr>,
      improvementSuggestions = []\<rparr>]"

subsection \<open>Improvement suggestions\<close>

fun categoryStr :: "SuggestionCategory \<Rightarrow> string" where
  "categoryStr Knowledge = ''knowledge''"
| "categoryStr Response = ''response''"
| "categoryStr Flow = ''flow''"
| "categoryStr Clarification = ''clarification''"

definition improvementKey :: "ImprovementSuggestion \<Rightarrow> string" where
  "improvementKey s = categoryStr (is_category s) @ ''-'' @ take 50 (issue s)"

text \<open>
  \<open>Array.from(new Set(xs))\<close>: a \<open>Set\<close> keeps each value once, in the order of first
  insertion.
\<close>

definition setFromArray :: "'a list \<Rightarrow> 'a list" where
  "setFromArray xs = fold (\<lambda>x acc. if x \<in> set acc then acc else acc @ [x]) xs []"

text \<open>
  One iteration of the inner \<open>forEach\<close>. A first occurrence stores a shallow copy of the
  suggestion with frequency 1; a later one replaces the \<open>examples\<close> field of the stored
  copy by a new array and bumps the frequency.
\<close>

definition improveStep :: "(string \<times> (ImprovementSuggestion \<times> nat)) list \<Rightarrow> ImprovementSuggestion
                            \<Rightarrow> (string \<times> (ImprovementSuggestion \<times> nat)) list" where
  "improveStep improvementMap s =
     (let key = improvementKey s in
      case mapGet improvementMap key of
        Some (stored, freq) \<Rightarrow>
          mapSet improvementMap key
            (stored\<lparr>examples := take 3 (setFromArray (examples stored @ examples s))\<rparr>, freq + 1)
      | None \<Rightarrow> mapSet improvementMap key (s, 1))"

definition improvementMapOf :: "ConversationAnalysis list
                                 \<Rightarrow> (string \<times> (ImprovementSuggestion \<times> nat)) list" where
  "improvementMapOf analyses =
     fold (\<lambda>a m. fold (\<lambda>s m'. improveStep m' s) (improvementSuggestions a) m) analyses []"

text \<open>The comparator of the final sort, on the map's values (suggestion, frequency).\<close>

fun priorityOrder :: "Priority \<Rightarrow> int" where
  "priorityOrder High = 0"
| "priorityOrder Medium = 1"
| "priorityOrder Low = 2"

definition cmpImprovement :: "ImprovementSuggestion \<times> nat \<Rightarrow> ImprovementSuggestion \<times> nat \<Rightarrow> int" where
  "cmpImprovement a b =
     (let priorityDiff = priorityOrder (priority (fst a)) - priorityOrder (priority (fst b))
      in if priorityDiff \<noteq> 0 then priorityDiff else int (snd b) - int (snd a))"

definition rankedImprovements :: "ConversationAnalysis list \<Rightarrow> (ImprovementSuggestion \<times> nat) list" where
  "rankedImprovements analyses = sortBy cmpImprovement (map snd (improvementMapOf analyses))"

definition topImprovements :: "ConversationAnalysis list \<Rightarrow> ImprovementSuggestion list" where
  "topImprovements analyses = map fst (take 10 (rankedImprovements analyses))"

text \<open>
  The key as the specification words it: the first 50 characters of
  \<open>{category}-{issue}\<close>. It is compared with \<open>improvementKey\<close> below.
\<close>

definition specKey :: "ImprovementSuggestion \<Rightarrow> string" where
  "specKey s = take 50 (categoryStr (is_category s) @ ''-'' @ issue s)"

text \<open>
  The ranking order: a higher priority comes first, and within one priority the higher
  frequency.
\<close>

definition rankedBefore :: "ImprovementSuggestion \<times> nat \<Rightarrow> ImprovementSuggestion \<times> nat \<Rightarrow> bool" where
  "rankedBefore a b \<longleftrightarrow>
     priorityOrder (priority (fst a)) < priorityOrder (priority (fst b))
     \<or> (priority (fst a) = priority (fst b) \<and> snd b \<le> snd a)"

definition sugA :: ImprovementSuggestion where
  "sugA = \<lparr>is_category = Knowledge, issue = ''Bot does not know the refund policy'',
          suggestion = ''Add refund policy article'', priority = Medium,
          examples = [''x'', ''y'']\<rparr>"

definition sugB :: ImprovementSuggestion where
  "sugB = \<lparr>is_category = Knowledge, issue = ''Bot does not know the refund policy'',
          suggestion = ''Document refunds'', priority = High,
          examples = [''y'', ''z'', ''w'']\<rparr>"

definition sugC :: ImprovementSuggestion where
  "sugC = \<lparr>is_category = Flow, issue = ''Too many steps'',
          suggestion = ''Shorten the flow'', priority = High, examples = []\<rparr>"

definition mkAnalysis :: "ImprovementSuggestion list \<Rightarrow> ConversationAnalysis" where
  "mkAnalysis ss = \<lparr>conversationFlow = \<lparr>topicChanges = 0, userSatisfactionTrend = StableSat,
                       conversationQuality = 0, misunderstandings = []\<rparr>,
                    improvementSuggestions = ss\<rparr>"

definition cexA :: ImprovementSuggestion where
  "cexA = \<lparr>is_category = Flow, issue = replicate 45 CHR ''a'' @ ''b'',
          suggestion = ''one'', priority = Low, examples = [''x'']\<rparr>"

definition cexB :: ImprovementSuggestion where
  "cexB = \<lparr>is_category = Flow, issue = replicate 45 CHR ''a'' @ ''c'',
          suggestion = ''two'', priority = Low, examples = [''y'']\<rparr>"

section \<open>Insight Synthesizer (InsightsService)\<close>

text \<open>
  \<open>Analytics\<close>: the fields read by the functions modelled below. \<open>DailyCount\<close> has the
  fields \<open>date\<close>, \<open>count\<close>, \<open>resolved\<close> and \<open>errors\<close>, prefixed here.
\<close>

record SentimentAnalysis =
  positive :: num
  neutral :: num
  negative :: num

record DailyCount =
  dc_date :: string
  dc_count :: nat
  dc_resolved :: nat
  dc_errors :: nat

record Analytics =
  totalConversations :: nat
  uniqueUsers :: nat
  averageSessionDuration :: num
  averageRating :: num
  resolvedRate :: num
  errorRate :: num
  topCategories :: "CategoryCount list"
  hourlyDistribution :: "HourlyCount list"
  dailyTrend :: "DailyCount list"
  userSentiment :: SentimentAnalysis
  responseTimeAnalysis :: ResponseTimeStats




text \<open>
  An alert's severity is the union \<open>'high' | 'medium' | 'low'\<close>, the same literals as a
  suggestion's priority. The field \<open>value\<close> of \<open>Alert\<close> is \<open>al_value\<close>.
\<close>

type_synonym Severity = Priority

record Alert =
  severity :: Severity
  message :: string
  metric :: "string option"
  al_value :: "num option"

text \<open>
  \<open>x.toFixed(f)\<close> for a finite \<open>x\<close> below \<open>10^21\<close> in magnitude: the sign, then the
  integer \<open>n\<close> nearest to \<open>|x| * 10^f\<close> (the larger one on a tie) printed in decimal,
  padded with zeros to \<open>f + 1\<close> digits, with a point before the last \<open>f\<close> digits. The
  rational stands for the exact value of the double.
\<close>

definition toFixed :: "nat \<Rightarrow> num \<Rightarrow> string" where
  "toFixed f x =
     (let n = nat \<lfloor>\<bar>x\<bar> * 10 ^ f + 1 / 2\<rfloor>;
          m = showNat n;
          m' = replicate (f + 1 - length m) CHR ''0'' @ m;
          k = length m'
      in (if x < 0 then ''-'' else '''')
           @ (if f = 0 then m' else take (k - f) m' @ ''.'' @ drop (k - f) m'))"


text \<open>
  \<open>xs.slice(start, end)\<close> and \<open>xs.slice(start)\<close>: a negative index counts from the
  end, and both indices are clamped to \<open>0..length\<close>.
\<close>

definition sliceIdx :: "int \<Rightarrow> int \<Rightarrow> int" where
  "sliceIdx len i = (if i < 0 then max (len + i) 0 else min i len)"

definition slice :: "'a list \<Rightarrow> int \<Rightarrow> int \<Rightarrow> 'a list" where
  "slice xs start end =
     (let len = int (length xs);
          k = sliceIdx len start;
          final = sliceIdx len end
      in take (nat (final - k)) (drop (nat k) xs))"

definition sliceFrom :: "'a list \<Rightarrow> int \<Rightarrow> 'a list" where
  "sliceFrom xs start = slice xs start (int (length xs))"

text \<open>\<open>xs.join(sep)\<close> on an array of strings.\<close>

fun joinStr :: "string \<Rightarrow> string list \<Rightarrow> string" where
  "joinStr sep [] = []"
| "joinStr sep [x] = x"
| "joinStr sep (x # y # ys) = x @ sep @ joinStr sep (y # ys)"

subsection \<open>Key metrics\<close>




subsection \<open>Alerts\<close>

text \<open>
  \<open>hourlyDistribution.reduce((max, hour) => hour.count > max.count ? hour : max,
  hourlyDistribution[0])\<close>: on an empty array the initial value, \<open>undefined\<close>, comes back.
\<close>

definition peakHourOf :: "HourlyCount list \<Rightarrow> HourlyCount option" where
  "peakHourOf hourly =
     (case hourly of
        [] \<Rightarrow> None
      | h0 # rest \<Rightarrow> Some (foldl (\<lambda>mx h. if hcount h > hcount mx then h else mx) h0 hourly))"

text \<open>\<open>generateAlerts\<close>: six independent rules, each pushing at most one alert.\<close>

definition generateAlerts :: "Analytics \<Rightarrow> Alert list" where
  "generateAlerts analytics =
     (if errorRate analytics > 10
      then [\<lparr>severity = High,
             message = ''High error rate detected: '' @ toFixed 1 (errorRate analytics) @ ''%'',
             metric = Some ''errorRate'', al_value = Some (errorRate analytics)\<rparr>]
      else [])
   @ (if resolvedRate analytics < 60
      then [\<lparr>severity = High,
             message = ''Low resolution rate: '' @ toFixed 1 (resolvedRate analytics) @ ''%'',
             metric = Some ''resolvedRate'', al_value = Some (resolvedRate analytics)\<rparr>]
      else [])
   @ (if averageRating analytics < 3 \<and> averageRating analytics > 0
      then [\<lparr>severity = Medium,
             message = ''Low average rating: '' @ toFixed 2 (averageRating analytics) @ ''/5'',
             metric = Some ''averageRating'', al_value = Some (averageRating analytics)\<rparr>]
      else [])
   @ (if negative (userSentiment analytics) > 30
      then [\<lparr>severity = Medium,
             message = ''High negative sentiment: ''
                         @ toFixed 1 (negative (userSentiment analytics)) @ ''%'',
             metric = Some ''sentiment'', al_value = Some (negative (userSentiment analytics))\<rparr>]
      else [])
   @ (if p95 (responseTimeAnalysis analytics) > 5000
      then [\<lparr>severity = Low,
             message = ''Slow response times - P95: ''
                         @ toFixed 1 (p95 (responseTimeAnalysis analytics) / 1000) @ ''s'',
             metric = Some ''responseTime'', al_value = Some (p95 (responseTimeAnalysis analytics))\<rparr>]
      else [])
   @ (case peakHourOf (hourlyDistribution analytics) of
        None \<Rightarrow> []
      | Some peakHour \<Rightarrow>
          if of_nat (hcount peakHour) > of_nat (totalConversations analytics) * (15 / 100 :: num)
          then [\<lparr>severity = Low,
                 message = ''High traffic concentration at '' @ showNat (hour peakHour)
                             @ '':00 ('' @ showNat (hcount peakHour) @ '' conversations)'',
                 metric = Some ''trafficPeak'', al_value = Some (of_nat (hcount peakHour))\<rparr>]
          else [])"

subsection \<open>Trend prose\<close>

text \<open>
  \<open>analyzeTrends\<close>. Both weekly sums are divided by the literal 7. When the previous
  average is 0 and the comparison succeeds, the quotient is \<open>Infinity\<close> and \<open>toFixed\<close>
  prints it as such. \<open>s || t\<close> on strings takes \<open>t\<close> when \<open>s\<close> is empty.
\<close>

definition analyzeTrends :: "Analytics \<Rightarrow> string" where
  "analyzeTrends analytics =
     (let trends =
        (if length (dailyTrend analytics) > 7
         then let lastWeek = sliceFrom (dailyTrend analytics) (- 7);
                  weeklyAvg = of_nat (sum_list (map dc_count lastWeek)) / (7 :: num);
                  previousWeek = slice (dailyTrend analytics) (- 14) (- 7);
                  prevWeeklyAvg = of_nat (sum_list (map dc_count previousWeek)) / (7 :: num)
              in if weeklyAvg > prevWeeklyAvg * (12 / 10)
                 then [''Traffic increased ''
                         @ (if prevWeeklyAvg = 0 then ''Infinity''
                            else toFixed 0 ((weeklyAvg / prevWeeklyAvg - 1) * 100))
                         @ ''% this week'']
                 else []
         else [])
      @ (let weekendTraffic = sum_list (map hcount (slice (hourlyDistribution analytics) 0 8));
             weekdayTraffic = sum_list (map hcount (slice (hourlyDistribution analytics) 8 20))
         in if of_nat weekendTraffic > of_nat weekdayTraffic * (3 / 10 :: num)
            then [''Significant weekend activity detected'']
            else [])
      @ (if length (topCategories analytics) \<ge> 2
         then [''Top categories: ''
                 @ joinStr '', ''
                     (map (\<lambda>c. cc_category c @ '' ('' @ toFixed 0 (cc_percentage c) @ ''%)'')
                        (slice (topCategories analytics) 0 2))]
         else [])
      in if joinStr ''. '' trends = []
         then ''No significant trends detected in the current period.''
         else joinStr ''. '' trends)"

subsection \<open>Sample inputs\<close>

definition baseAnalytics :: Analytics where
  "baseAnalytics =
     \<lparr>totalConversations = 200, uniqueUsers = 50, averageSessionDuration = 1200,
      averageRating = 4, resolvedRate = 90, errorRate = 4,
      topCategories = [], hourlyDistribution = [], dailyTrend = [],
      userSentiment = \<lparr>positive = 50, neutral = 50, negative = 0\<rparr>,
      responseTimeAnalysis = \<lparr>average = 0, median = 0, p95 = 0, p99 = 0\<rparr>\<rparr>"

definition flatWeek :: "DailyCount list" where
  "flatWeek = map (\<lambda>d. \<lparr>dc_date = ''2024-01-0'' @ showNat d, dc_count = 10, dc_resolved = 0, dc_errors = 0\<rparr>)
                  [1, 2, 3, 4, 5, 6, 7, 8]"


text \<open>
  The alert that the first rule of \<open>generateAlerts\<close> pushes at an error rate, and the
  test for it: the high-severity alert on the metric \<open>errorRate\<close>.
\<close>

definition errorAlert :: "num \<Rightarrow> Alert" where
  "errorAlert e = \<lparr>severity = High, message = ''High error rate detected: '' @ toFixed 1 e @ ''%'',
                    metric = Some ''errorRate'', al_value = Some e\<rparr>"

definition isErrorAlert :: "Alert \<Rightarrow> bool" where
  "isErrorAlert x \<longleftrightarrow> severity x = High \<and> metric x = Some ''errorRate''"

definition peakAnalytics :: Analytics where
  "peakAnalytics = baseAnalytics\<lparr>hourlyDistribution := [\<lparr>hour = 0, hcount = 5\<rparr>, \<lparr>hour = 1, hcount = 50\<rparr>]\<rparr>"

section \<open>Properties\<close>

subsection \<open>Rates\<close>

lemma filter_length_card:
  "length (filter P xs) = card {i. i < length xs \<and> P (xs ! i)}"
  by (simp add: length_filter_conv_card)

lemma rate_bounds:
  fixes k n :: nat
  assumes "k \<le> n" "0 < n"
  shows "0 \<le> (of_nat k / of_nat n) * (100::rat) \<and> (of_nat k / of_nat n) * (100::rat) \<le> 100"
proof -
  define q :: rat where "q = of_nat k / of_nat n"
  have "(of_nat k :: rat) \<le> of_nat n" using assms by simp
  hence "q \<le> 1" using assms by (simp add: q_def divide_le_eq)
  moreover have "0 \<le> q" by (simp add: q_def)
  ultimately have "0 \<le> q * 100 \<and> q * 100 \<le> 100" by simp
  thus ?thesis by (simp only: q_def)
qed

text \<open>
  C2. For every log collection, the resolved rate is the number of logs whose \<open>resolved\<close>
  is strictly \<open>true\<close> over the number of logs, times 100, and the error rate likewise
  with \<open>error\<close>; both lie in [0,100], and both are 0 for the empty collection.
\<close>

theorem rates_correct:
  "calculateResolvedRate logs =
     (if logs = [] then 0
      else of_nat (card {i. i < length logs \<and> resolved (logs ! i) = Some True})
             / of_nat (length logs) * 100)
   \<and> calculateErrorRate logs =
     (if logs = [] then 0
      else of_nat (card {i. i < length logs \<and> error (logs ! i) = Some True})
             / of_nat (length logs) * 100)
   \<and> 0 \<le> calculateResolvedRate logs \<and> calculateResolvedRate logs \<le> 100
   \<and> 0 \<le> calculateErrorRate logs \<and> calculateErrorRate logs \<le> 100"
proof (cases "logs = []")
  case True
  then show ?thesis by (simp add: calculateResolvedRate_def calculateErrorRate_def)
next
  case False
  hence n: "0 < length logs" by simp
  have r: "length (filter (\<lambda>lg. resolved lg = Some True) logs) \<le> length logs"
    and e: "length (filter (\<lambda>lg. error lg = Some True) logs) \<le> length logs"
    by simp_all
  from rate_bounds[OF r n] rate_bounds[OF e n] False show ?thesis
    by (simp add: calculateResolvedRate_def calculateErrorRate_def filter_length_card)
qed

theorem rates_correct_witness:
  "calculateResolvedRate rateLogs = 25 \<and> calculateErrorRate rateLogs = 50
   \<and> 0 \<le> calculateResolvedRate rateLogs \<and> calculateResolvedRate rateLogs \<le> 100
   \<and> calculateResolvedRate [] = 0 \<and> calculateErrorRate [] = 0"
  using rates_correct [of rateLogs] rates_correct [of "[]"]
  by (simp add: calculateResolvedRate_def calculateErrorRate_def rateLogs_def emptyLog_def)

subsection \<open>Response-time percentiles\<close>

lemma idxMedian_eq: "idxMedian n = n div 2"
  unfolding idxMedian_def
  by (metis floor_divide_of_nat_eq nat_int of_nat_numeral)

lemma idxP95_eq: "idxP95 n = (n * 95) div 100"
proof -
  have "(of_nat n :: rat) * (95 / 100) = of_nat (n * 95) / of_nat 100" by simp
  hence "\<lfloor>(of_nat n :: rat) * (95 / 100)\<rfloor> = int ((n * 95) div 100)"
    by (simp only: floor_divide_of_nat_eq)
  thus ?thesis by (simp add: idxP95_def)
qed

lemma idxP99_eq: "idxP99 n = (n * 99) div 100"
proof -
  have "(of_nat n :: rat) * (99 / 100) = of_nat (n * 99) / of_nat 100" by simp
  hence "\<lfloor>(of_nat n :: rat) * (99 / 100)\<rfloor> = int ((n * 99) div 100)"
    by (simp only: floor_divide_of_nat_eq)
  thus ?thesis by (simp add: idxP99_def)
qed

lemma idx_order:
  assumes "0 < n"
  shows "idxMedian n \<le> idxP95 n \<and> idxP95 n \<le> idxP99 n \<and> idxP99 n < n"
proof -
  have "n div 2 = (n * 50) div (2 * 50)" by (simp only: div_mult_mult2)
  also have "\<dots> \<le> (n * 95) div 100" by (simp add: div_le_mono)
  finally have a: "n div 2 \<le> (n * 95) div 100" .
  have b: "(n * 95) div 100 \<le> (n * 99) div 100" by (simp add: div_le_mono)
  have "n * 99 < n * 100" using assms by simp
  hence c: "(n * 99) div 100 < n" by (simp add: less_mult_imp_div_less)
  show ?thesis using a b c by (simp only: idxMedian_eq idxP95_eq idxP99_eq)
qed

lemma collectResponseTimes_filter:
  "collectResponseTimes logs = map (\<lambda>lg. the (responseTime lg)) (filter (\<lambda>lg. truthyNum (responseTime lg)) logs)"
  by (induction logs) simp_all

lemma analyze_empty:
  "collectResponseTimes logs = [] \<Longrightarrow>
   analyzeResponseTimes logs = Some \<lparr>average = 0, median = 0, p95 = 0, p99 = 0\<rparr>"
  by (simp add: analyzeResponseTimes_def)

lemma analyze_nonempty:
  assumes "collectResponseTimes logs \<noteq> []"
  defines "s \<equiv> sort (collectResponseTimes logs)"
  shows "analyzeResponseTimes logs =
           Some \<lparr>average = sum_list s / of_nat (length s), median = s ! idxMedian (length s),
                 p95 = s ! idxP95 (length s), p99 = s ! idxP99 (length s)\<rparr>"
proof -
  have n: "0 < length s" using assms by simp
  note o = idx_order[OF n]
  have "arrayAt s (idxMedian (length s)) = Some (s ! idxMedian (length s))"
       "arrayAt s (idxP95 (length s)) = Some (s ! idxP95 (length s))"
       "arrayAt s (idxP99 (length s)) = Some (s ! idxP99 (length s))"
    using o by (simp_all add: arrayAt_def)
  moreover have "length (collectResponseTimes logs) \<noteq> 0" using assms by simp
  ultimately show ?thesis
    unfolding analyzeResponseTimes_def Let_def s_def[symmetric]
    by (simp add: s_def)
qed

text \<open>
  C1. Let the present (truthy) response times of a log collection, sorted ascending, be
  \<open>samples\<close>, \<open>n\<close> of them. When \<open>n \<ge> 1\<close>, the median is the sample at index
  \<open>floor(n/2)\<close>, p95 the one at \<open>floor(n*0.95)\<close> and p99 the one at \<open>floor(n*0.99)\<close>;
  each index is below \<open>n\<close>, so clamping it to \<open>0..n-1\<close> changes nothing and every read
  is in bounds. When \<open>n = 0\<close>, average, median, p95 and p99 are 0.
\<close>

theorem response_time_percentiles:
  assumes "samples = sort (map (\<lambda>lg. the (responseTime lg)) (filter (\<lambda>lg. truthyNum (responseTime lg)) logs))"
    and "n = length samples"
  shows "(n = 0 \<longrightarrow> analyzeResponseTimes logs = Some \<lparr>average = 0, median = 0, p95 = 0, p99 = 0\<rparr>)
       \<and> (1 \<le> n \<longrightarrow>
            n div 2 < n \<and> n * 95 div 100 < n \<and> n * 99 div 100 < n
          \<and> analyzeResponseTimes logs =
              Some \<lparr>average = sum_list samples / of_nat n,
                    median = samples ! min (n div 2) (n - 1),
                    p95 = samples ! min (n * 95 div 100) (n - 1),
                    p99 = samples ! min (n * 99 div 100) (n - 1)\<rparr>)"
proof (intro conjI impI)
  assume "n = 0"
  hence "collectResponseTimes logs = []" using assms by (simp add: collectResponseTimes_filter)
  thus "analyzeResponseTimes logs = Some \<lparr>average = 0, median = 0, p95 = 0, p99 = 0\<rparr>"
    by (rule analyze_empty)
next
  assume "1 \<le> n" thus "n div 2 < n" by simp
next
  assume "1 \<le> n" thus "n * 95 div 100 < n" by simp
next
  assume "1 \<le> n" thus "n * 99 div 100 < n" by simp
next
  assume n: "1 \<le> n"
  have s: "samples = sort (collectResponseTimes logs)"
    using assms by (simp add: collectResponseTimes_filter)
  hence ne: "collectResponseTimes logs \<noteq> []" using n assms(2) by auto
  have m: "min (n div 2) (n - 1) = n div 2" "min (n * 95 div 100) (n - 1) = n * 95 div 100"
     "min (n * 99 div 100) (n - 1) = n * 99 div 100"
    using n by simp_all
  show "analyzeResponseTimes logs =
              Some \<lparr>average = sum_list samples / of_nat n,
                    median = samples ! min (n div 2) (n - 1),
                    p95 = samples ! min (n * 95 div 100) (n - 1),
                    p99 = samples ! min (n * 99 div 100) (n - 1)\<rparr>"
    unfolding m using analyze_nonempty[OF ne] 
    by (simp add: s assms(2) idxMedian_eq idxP95_eq idxP99_eq)
qed

theorem response_time_percentiles_witness:
  "analyzeResponseTimes rtLogs = Some \<lparr>average = 200, median = 200, p95 = 300, p99 = 300\<rparr>
   \<and> analyzeResponseTimes [emptyLog] = Some \<lparr>average = 0, median = 0, p95 = 0, p99 = 0\<rparr>"
proof -
  have h1: "[100, 200, 300] = sort (map (\<lambda>lg. the (responseTime lg)) (filter (\<lambda>lg. truthyNum (responseTime lg)) rtLogs))"
    by (simp add: rtLogs_def emptyLog_def truthyNum_def)
  have h2: "3 = length [100, 200, 300 :: rat]" by simp
  have h3: "[] = sort (map (\<lambda>lg. the (responseTime lg)) (filter (\<lambda>lg. truthyNum (responseTime lg)) [emptyLog]))"
    by (simp add: emptyLog_def truthyNum_def)
  have h4: "0 = length ([] :: rat list)" by simp
  from response_time_percentiles [OF h1 h2] response_time_percentiles [OF h3 h4]
  show ?thesis by simp
qed

text \<open>
  C7. For every log collection with at least one present response time, the statistics
  satisfy \<open>median \<le> p95 \<le> p99\<close>, and the three are equal (to the common value) when all
  present samples are identical.
\<close>

theorem percentile_ordering:
  assumes "\<exists>lg \<in> set logs. truthyNum (responseTime lg)"
  shows "\<exists>st. analyzeResponseTimes logs = Some st
            \<and> median st \<le> p95 st \<and> p95 st \<le> p99 st
            \<and> (\<forall>v. (\<forall>lg \<in> set logs. truthyNum (responseTime lg) \<longrightarrow> responseTime lg = Some v)
                  \<longrightarrow> median st = v \<and> p95 st = v \<and> p99 st = v)"
proof -
  define s where "s = sort (collectResponseTimes logs)"
  have ne: "collectResponseTimes logs \<noteq> []"
    using assms by (auto simp: collectResponseTimes_filter filter_empty_conv)
  hence n: "0 < length s" by (simp add: s_def)
  note o = idx_order[OF n]
  have srt: "sorted s" by (simp add: s_def)
  have a: "s ! idxMedian (length s) \<le> s ! idxP95 (length s)"
    using srt o by (simp add: sorted_nth_mono)
  have b: "s ! idxP95 (length s) \<le> s ! idxP99 (length s)"
    using srt o by (simp add: sorted_nth_mono)
  have c: "\<And>v i. (\<forall>lg \<in> set logs. truthyNum (responseTime lg) \<longrightarrow> responseTime lg = Some v) \<Longrightarrow> i < length s \<Longrightarrow> s ! i = v"
  proof -
    fix v i assume h: "\<forall>lg \<in> set logs. truthyNum (responseTime lg) \<longrightarrow> responseTime lg = Some v" and i: "i < length s"
    have "set s \<subseteq> {v}" using h by (auto simp: s_def collectResponseTimes_filter)
    moreover have "s ! i \<in> set s" using i by simp
    ultimately show "s ! i = v" by blast
  qed
  show ?thesis
    using analyze_nonempty[OF ne] a b c o unfolding s_def[symmetric]
    by (auto)
qed


theorem percentile_ordering_witness:
  "(\<exists>lg \<in> set rtLogs. truthyNum (responseTime lg))
   \<and> (\<exists>st. analyzeResponseTimes rtLogs = Some st \<and> median st \<le> p95 st \<and> p95 st \<le> p99 st)
   \<and> (\<exists>st. analyzeResponseTimes [emptyLog\<lparr>responseTime := Some 7\<rparr>, emptyLog\<lparr>responseTime := Some 7\<rparr>] = Some st
          \<and> median st = 7 \<and> p95 st = 7 \<and> p99 st = 7)"
proof -
  have h1: "\<exists>lg \<in> set rtLogs. truthyNum (responseTime lg)"
    by (simp add: rtLogs_def emptyLog_def truthyNum_def)
  have h2: "\<exists>lg \<in> set [emptyLog\<lparr>responseTime := Some 7\<rparr>, emptyLog\<lparr>responseTime := Some 7\<rparr>]. truthyNum (responseTime lg)"
    by (simp add: emptyLog_def truthyNum_def)
  have h3: "\<forall>lg \<in> set [emptyLog\<lparr>responseTime := Some 7\<rparr>, emptyLog\<lparr>responseTime := Some 7\<rparr>].
              truthyNum (responseTime lg) \<longrightarrow> responseTime lg = Some 7"
    by (simp add: emptyLog_def)
  from percentile_ordering [OF h2] h3 have
    "\<exists>st. analyzeResponseTimes [emptyLog\<lparr>responseTime := Some 7\<rparr>, emptyLog\<lparr>responseTime := Some 7\<rparr>] = Some st
          \<and> median st = 7 \<and> p95 st = 7 \<and> p99 st = 7"
    by blast
  moreover from percentile_ordering [OF h1] have
    "\<exists>st. analyzeResponseTimes rtLogs = Some st \<and> median st \<le> p95 st \<and> p95 st \<le> p99 st"
    by blast
  ultimately show ?thesis using h1 by blast
qed

subsection \<open>Hourly distribution\<close>










subsection \<open>Maps and sorting\<close>

lemma set_insertBy: "set (insertBy cmp x ys) = insert x (set ys)"
  by (induction ys) auto

lemma set_sortBy: "set (sortBy cmp xs) = set xs"
  by (induction xs) (simp_all add: sortBy_def set_insertBy)

lemma length_insertBy: "length (insertBy cmp x ys) = Suc (length ys)"
  by (induction ys) auto

lemma length_sortBy: "length (sortBy cmp xs) = length xs"
  by (induction xs) (simp_all add: sortBy_def length_insertBy)

lemma mapGet_mapSet: "mapGet (mapSet m k v) k' = (if k' = k then Some v else mapGet m k')"
  by (induction m) auto

lemma keys_mapSet: "fst ` set (mapSet m k v) = insert k (fst ` set m)"
  by (induction m k v rule: mapSet.induct) auto

lemma distinct_mapSet: "distinct (map fst m) \<Longrightarrow> distinct (map fst (mapSet m k v))"
proof (induction m k v rule: mapSet.induct)
  case (1 k v)
  then show ?case by simp
next
  case (2 k' v' m k v)
  have "fst ` set (mapSet m k v) = insert k (fst ` set m)" by (rule keys_mapSet)
  with 2 show ?case by auto
qed

lemma mapGet_entry: "distinct (map fst m) \<Longrightarrow> (k, v) \<in> set m \<Longrightarrow> mapGet m k = Some v"
  by (induction m) (auto simp: rev_image_eqI)

lemma mapGet_None: "k \<notin> fst ` set m \<Longrightarrow> mapGet m k = None"
  by (induction m) auto

lemma set_mapSet:
  "distinct (map fst m) \<Longrightarrow> set (mapSet m k v) = insert (k, v) {(k', e) \<in> set m. k' \<noteq> k}"
  by (induction m k v rule: mapSet.induct) (auto simp: rev_image_eqI)

lemma mapGet_Some_mem: "mapGet m k = Some v \<Longrightarrow> (k, v) \<in> set m"
  by (induction m) (auto split: if_splits)

lemma mapGet_None_iff: "mapGet m k = None \<longleftrightarrow> k \<notin> fst ` set m"
  by (induction m) (auto split: if_splits)

subsection \<open>Breakdowns\<close>

lemma bumpAll_get:
  "natOr0 (mapGet (bumpAll ks m) k) = natOr0 (mapGet m k) + count_list ks k"
  unfolding bumpAll_def
  by (induction ks arbitrary: m) (auto simp: bump_def mapGet_mapSet natOr0_def)

lemma bumpAll_keys: "fst ` set (bumpAll ks m) = fst ` set m \<union> set ks"
  unfolding bumpAll_def
  by (induction ks arbitrary: m) (auto simp: bump_def keys_mapSet)

lemma bumpAll_distinct: "distinct (map fst m) \<Longrightarrow> distinct (map fst (bumpAll ks m))"
  unfolding bumpAll_def
  by (induction ks arbitrary: m) (auto simp: bump_def distinct_mapSet)

lemma countBy_bumpAll:
  "fold (\<lambda>lg m. if truthyStr (field lg) then bump m (the (field lg)) else m) logs m
     = bumpAll (map (\<lambda>lg. the (field lg)) (filter (\<lambda>lg. truthyStr (field lg)) logs)) m"
  unfolding bumpAll_def
  by (induction logs arbitrary: m) simp_all

lemma count_list_map_filter:
  "count_list (map f (filter P xs)) k = length (filter (\<lambda>x. P x \<and> f x = k) xs)"
  by (induction xs) auto

lemma countBy_entry:
  assumes "(k, n) \<in> set (countBy field logs)"
  shows "n = length (filter (\<lambda>lg. field lg = Some k) logs) \<and> k \<noteq> []"
proof -
  let ?ks = "map (\<lambda>lg. the (field lg)) (filter (\<lambda>lg. truthyStr (field lg)) logs)"
  have c: "countBy field logs = bumpAll ?ks []" by (simp add: countBy_def countBy_bumpAll)
  have d: "distinct (map fst (countBy field logs))" unfolding c by (rule bumpAll_distinct) simp
  have "k \<in> fst ` set (countBy field logs)" using assms by (simp add: rev_image_eqI)
  hence "k \<in> set ?ks" unfolding c bumpAll_keys by simp
  hence ne: "k \<noteq> []" by (auto simp: truthyStr_def split: option.splits)
  have "mapGet (countBy field logs) k = Some n" using d assms by (rule mapGet_entry)
  hence "n = natOr0 (mapGet (bumpAll ?ks []) k)" by (simp add: c natOr0_def)
  also have "\<dots> = count_list ?ks k" using bumpAll_get[of ?ks "[]" k] by (simp add: natOr0_def)
  also have "\<dots> = length (filter (\<lambda>lg. truthyStr (field lg) \<and> the (field lg) = k) logs)"
    by (rule count_list_map_filter)
  also have "(\<lambda>lg. truthyStr (field lg) \<and> the (field lg) = k) = (\<lambda>lg. field lg = Some k)"
    using ne by (auto simp: truthyStr_def fun_eq_iff split: option.splits)
  finally show ?thesis using ne by simp
qed

lemma catLogs_eval:
  "getTopCategories catLogs =
     [\<lparr>cc_category = ''billing'', cc_count = 2, cc_percentage = 50\<rparr>,
      \<lparr>cc_category = ''help'', cc_count = 1, cc_percentage = 25\<rparr>]"
  by (simp add: getTopCategories_def countBy_def bump_def truthyStr_def sortBy_def natOr0_def
        catLogs_def emptyLog_def)

text \<open>
  C9. In the top categories, the platform distribution and the app versions, each listed
  entry's percentage is its count over the number of all input logs, times 100, where its
  count is the number of logs carrying that key: the denominator counts the logs without
  the field too and is the same for every entry. The listed percentages need not add up
  to 100.
\<close>

theorem breakdown_percentages:
  "(\<forall>e \<in> set (getTopCategories logs).
       cc_percentage e = of_nat (cc_count e) / of_nat (length logs) * 100
     \<and> cc_count e = length (filter (\<lambda>lg. category lg = Some (cc_category e)) logs))
 \<and> (\<forall>e \<in> set (getPlatformDistribution logs).
       pc_percentage e = of_nat (pc_count e) / of_nat (length logs) * 100
     \<and> pc_count e = length (filter (\<lambda>lg. platform lg = Some (pc_platform e)) logs))
 \<and> (\<forall>e \<in> set (getAppVersions logs).
       vc_percentage e = of_nat (vc_count e) / of_nat (length logs) * 100
     \<and> vc_count e = length (filter (\<lambda>lg. appVersion lg = Some (vc_version e)) logs))
 \<and> (\<exists>ls. sum_list (map cc_percentage (getTopCategories ls)) \<noteq> 100)"
proof (intro conjI ballI)
  fix e assume "e \<in> set (getTopCategories logs)"
  hence "e \<in> set (map (\<lambda>(c, n). \<lparr>cc_category = c, cc_count = n,
                            cc_percentage = (of_nat n / of_nat (length logs)) * 100\<rparr>) (countBy category logs))"
    by (auto simp: getTopCategories_def set_sortBy dest: in_set_takeD)
  then obtain c n where cn: "(c, n) \<in> set (countBy category logs)"
     and e: "e = \<lparr>cc_category = c, cc_count = n, cc_percentage = (of_nat n / of_nat (length logs)) * 100\<rparr>"
    by auto
  show "cc_percentage e = of_nat (cc_count e) / of_nat (length logs) * 100" by (simp add: e)
  show "cc_count e = length (filter (\<lambda>lg. category lg = Some (cc_category e)) logs)"
    using countBy_entry[OF cn] by (simp add: e)
next
  fix e assume "e \<in> set (getPlatformDistribution logs)"
  hence "e \<in> set (map (\<lambda>(c, n). \<lparr>pc_platform = c, pc_count = n,
                            pc_percentage = (of_nat n / of_nat (length logs)) * 100\<rparr>) (countBy platform logs))"
    by (auto simp: getPlatformDistribution_def set_sortBy)
  then obtain c n where cn: "(c, n) \<in> set (countBy platform logs)"
     and e: "e = \<lparr>pc_platform = c, pc_count = n, pc_percentage = (of_nat n / of_nat (length logs)) * 100\<rparr>"
    by auto
  show "pc_percentage e = of_nat (pc_count e) / of_nat (length logs) * 100" by (simp add: e)
  show "pc_count e = length (filter (\<lambda>lg. platform lg = Some (pc_platform e)) logs)"
    using countBy_entry[OF cn] by (simp add: e)
next
  fix e assume "e \<in> set (getAppVersions logs)"
  hence "e \<in> set (map (\<lambda>(c, n). \<lparr>vc_version = c, vc_count = n,
                            vc_percentage = (of_nat n / of_nat (length logs)) * 100\<rparr>) (countBy appVersion logs))"
    by (auto simp: getAppVersions_def set_sortBy dest: in_set_takeD)
  then obtain c n where cn: "(c, n) \<in> set (countBy appVersion logs)"
     and e: "e = \<lparr>vc_version = c, vc_count = n, vc_percentage = (of_nat n / of_nat (length logs)) * 100\<rparr>"
    by auto
  show "vc_percentage e = of_nat (vc_count e) / of_nat (length logs) * 100" by (simp add: e)
  show "vc_count e = length (filter (\<lambda>lg. appVersion lg = Some (vc_version e)) logs)"
    using countBy_entry[OF cn] by (simp add: e)
next
  have "sum_list (map cc_percentage (getTopCategories catLogs)) = 75"
    by (simp add: catLogs_eval)
  thus "\<exists>ls. sum_list (map cc_percentage (getTopCategories ls)) \<noteq> 100"
    by (intro exI[of _ catLogs]) simp
qed


theorem breakdown_percentages_witness:
  "getTopCategories catLogs =
     [\<lparr>cc_category = ''billing'', cc_count = 2, cc_percentage = 50\<rparr>,
      \<lparr>cc_category = ''help'', cc_count = 1, cc_percentage = 25\<rparr>]
   \<and> getPlatformDistribution catLogs = [\<lparr>pc_platform = ''ios'', pc_count = 2, pc_percentage = 50\<rparr>]
   \<and> getAppVersions catLogs = [\<lparr>vc_version = ''1.2'', vc_count = 1, vc_percentage = 25\<rparr>]
   \<and> length catLogs = 4"
  using breakdown_percentages [of catLogs]
  by (simp add: getTopCategories_def getPlatformDistribution_def getAppVersions_def countBy_def
        bump_def truthyStr_def sortBy_def natOr0_def catLogs_def emptyLog_def)

subsection \<open>Flow patterns\<close>

lemma flowInv_step:
  assumes "flowInv as m"
  shows "flowInv (as @ [x]) (flowStep m x)"
proof -
  let ?p = "flowKey x"
  let ?q = "conversationQuality (conversationFlow x)"
  define existing where "existing = (case mapGet m ?p of Some e \<Rightarrow> e
                      | None \<Rightarrow> \<lparr>pattern = ?p, frequency = 0, averageQuality = 0, commonIssues = []\<rparr>)"
  define v where "v = existing\<lparr>frequency := frequency existing + 1,
                     averageQuality := (averageQuality existing + ?q) / 2,
                     commonIssues := commonIssues existing @ misunderstandings (conversationFlow x)\<rparr>"
  have step: "flowStep m x = mapSet m ?p v"
    by (simp add: flowStep_def Let_def v_def existing_def)
  have d: "distinct (map fst m)" and keys: "fst ` set m = flowKey ` set as"
    and ent: "\<And>k e. (k, e) \<in> set m \<Longrightarrow> pattern e = k \<and> averageQuality e = runningAverage (qualitiesOf k as)
                         \<and> frequency e = length (qualitiesOf k as)"
    using assms by (auto simp: flowInv_def)
  have ex: "pattern existing = ?p \<and> averageQuality existing = runningAverage (qualitiesOf ?p as)
            \<and> frequency existing = length (qualitiesOf ?p as)"
  proof (cases "mapGet m ?p")
    case None
    hence "?p \<notin> flowKey ` set as" using keys by (simp add: mapGet_None_iff)
    hence "\<forall>a \<in> set as. flowKey a \<noteq> ?p" by (metis image_eqI)
    hence "qualitiesOf ?p as = []" by (simp add: qualitiesOf_def filter_empty_conv)
    thus ?thesis using None by (simp add: existing_def runningAverage_def)
  next
    case (Some e)
    hence "(?p, e) \<in> set m" by (rule mapGet_Some_mem)
    from ent[OF this] Some show ?thesis by (simp add: existing_def)
  qed
  have qs: "qualitiesOf ?p (as @ [x]) = qualitiesOf ?p as @ [?q]"
    by (simp add: qualitiesOf_def)
  have vok: "pattern v = ?p \<and> averageQuality v = runningAverage (qualitiesOf ?p (as @ [x]))
            \<and> frequency v = length (qualitiesOf ?p (as @ [x]))"
    using ex by (simp add: v_def qs runningAverage_def)
  have other: "\<And>k. k \<noteq> ?p \<Longrightarrow> qualitiesOf k (as @ [x]) = qualitiesOf k as"
    by (auto simp: qualitiesOf_def)
  have s: "set (mapSet m ?p v) = insert (?p, v) {(k', e) \<in> set m. k' \<noteq> ?p}"
    using d by (rule set_mapSet)
  have "distinct (map fst (mapSet m ?p v))" using d by (rule distinct_mapSet)
  moreover have "fst ` set (mapSet m ?p v) = flowKey ` set (as @ [x])"
    using keys by (auto simp: keys_mapSet)
  moreover have "\<forall>(k, e) \<in> set (mapSet m ?p v). pattern e = k \<and> averageQuality e = runningAverage (qualitiesOf k (as @ [x]))
                         \<and> frequency e = length (qualitiesOf k (as @ [x]))"
    unfolding s using vok ent other by auto
  ultimately show ?thesis unfolding step flowInv_def by blast
qed

lemma flowInv_all: "flowInv as (flowPatternsOf as)"
proof (induction as rule: rev_induct)
  case Nil
  then show ?case by (simp add: flowInv_def flowPatternsOf_def)
next
  case (snoc x xs)
  then show ?case using flowInv_step[of xs "flowPatternsOf xs" x]
    by (simp add: flowPatternsOf_def)
qed

text \<open>
  C10. The average quality reported for a flow pattern is the running average that starts
  at 0 and becomes \<open>(previous + quality) / 2\<close> at each analysis with that pattern; so for
  a pattern that occurs in exactly one analysis it is half that analysis's
  \<open>conversationQuality\<close>.
\<close>

theorem flow_running_average:
  "\<forall>e \<in> set (conversationPatterns analyses).
      averageQuality e
        = foldl (\<lambda>avg q. (avg + q) / 2) 0
            (map (\<lambda>a. conversationQuality (conversationFlow a))
               (filter (\<lambda>a. flowKey a = pattern e) analyses))
    \<and> (\<forall>a. filter (\<lambda>b. flowKey b = pattern e) analyses = [a]
           \<longrightarrow> averageQuality e = conversationQuality (conversationFlow a) / 2)"
proof
  fix e assume "e \<in> set (conversationPatterns analyses)"
  hence "e \<in> snd ` set (flowPatternsOf analyses)"
    by (auto simp: conversationPatterns_def set_sortBy dest: in_set_takeD)
  then obtain k where k: "(k, e) \<in> set (flowPatternsOf analyses)" by auto
  have "flowInv analyses (flowPatternsOf analyses)" by (rule flowInv_all)
  with k have pk: "pattern e = k"
    and avg: "averageQuality e = runningAverage (qualitiesOf k analyses)"
    by (auto simp: flowInv_def)
  have 1: "averageQuality e
        = foldl (\<lambda>avg q. (avg + q) / 2) 0
            (map (\<lambda>a. conversationQuality (conversationFlow a))
               (filter (\<lambda>a. flowKey a = pattern e) analyses))"
    using avg by (simp add: pk runningAverage_def qualitiesOf_def)
  have 2: "\<forall>a. filter (\<lambda>b. flowKey b = pattern e) analyses = [a]
           \<longrightarrow> averageQuality e = conversationQuality (conversationFlow a) / 2"
    by (simp add: 1)
  from 1 2 show "averageQuality e
        = foldl (\<lambda>avg q. (avg + q) / 2) 0
            (map (\<lambda>a. conversationQuality (conversationFlow a))
               (filter (\<lambda>a. flowKey a = pattern e) analyses))
    \<and> (\<forall>a. filter (\<lambda>b. flowKey b = pattern e) analyses = [a]
           \<longrightarrow> averageQuality e = conversationQuality (conversationFlow a) / 2)" by blast
qed

theorem flow_running_average_witness:
  "conversationPatterns flowEx =
     [\<lparr>pattern = ''improving_2topics'', frequency = 2, averageQuality = 40, commonIssues = [''a'', ''b'']\<rparr>,
      \<lparr>pattern = ''declining_0topics'', frequency = 1, averageQuality = 30, commonIssues = []\<rparr>]"
  using flow_running_average [of flowEx]
  by (simp add: conversationPatterns_def flowPatternsOf_def flowStep_def flowKey_def showInt_def
        showNat.simps digitChar_def sortBy_def flowEx_def Let_def)


subsection \<open>Improvement suggestions\<close>

lemma setFromArray_acc:
  "distinct acc \<Longrightarrow> distinct (fold (\<lambda>x acc. if x \<in> set acc then acc else acc @ [x]) xs acc)
     \<and> set (fold (\<lambda>x acc. if x \<in> set acc then acc else acc @ [x]) xs acc) = set acc \<union> set xs"
  by (induction xs arbitrary: acc) auto

lemma setFromArray_set: "distinct (setFromArray xs) \<and> set (setFromArray xs) = set xs"
  using setFromArray_acc[of "[]" xs] by (simp add: setFromArray_def)

lemma sorted_insertBy:
  assumes total: "\<And>a b. \<not> cmp a b \<le> 0 \<Longrightarrow> cmp b a \<le> 0"
    and trans: "\<And>a b c. cmp a b \<le> 0 \<Longrightarrow> cmp b c \<le> 0 \<Longrightarrow> cmp a c \<le> 0"
  shows "sorted_wrt (\<lambda>a b. cmp a b \<le> 0) ys \<Longrightarrow> sorted_wrt (\<lambda>a b. cmp a b \<le> 0) (insertBy cmp x ys)"
proof (induction ys)
  case Nil
  then show ?case by simp
next
  case (Cons y ys)
  show ?case
  proof (cases "cmp x y \<le> 0")
    case True
    hence "\<forall>z \<in> set (y # ys). cmp x z \<le> 0" using Cons.prems trans by auto
    with True Cons.prems show ?thesis by simp
  next
    case False
    hence "cmp y x \<le> 0" by (rule total)
    with False Cons show ?thesis by (auto simp: set_insertBy)
  qed
qed

lemma sorted_sortBy:
  assumes total: "\<And>a b. \<not> cmp a b \<le> 0 \<Longrightarrow> cmp b a \<le> 0"
    and trans: "\<And>a b c. cmp a b \<le> 0 \<Longrightarrow> cmp b c \<le> 0 \<Longrightarrow> cmp a c \<le> 0"
  shows "sorted_wrt (\<lambda>a b. cmp a b \<le> 0) (sortBy cmp xs)"
proof (induction xs)
  case Nil
  then show ?case by (simp add: sortBy_def)
next
  case (Cons x xs)
  have "sortBy cmp (x # xs) = insertBy cmp x (sortBy cmp xs)" by (simp add: sortBy_def)
  with Cons sorted_insertBy[of cmp, OF total trans] show ?case by simp
qed

lemma priorityOrder_inj: "priorityOrder p = priorityOrder q \<longleftrightarrow> p = q"
  by (cases p; cases q) simp_all

lemma cmpImprovement_le: "cmpImprovement a b \<le> 0 \<longleftrightarrow> rankedBefore a b"
  by (cases "priority (fst a)"; cases "priority (fst b)")
     (auto simp: cmpImprovement_def rankedBefore_def Let_def)

lemma ranked_sorted: "sorted_wrt rankedBefore (rankedImprovements analyses)"
proof -
  have "sorted_wrt (\<lambda>a b. cmpImprovement a b \<le> 0) (sortBy cmpImprovement (map snd (improvementMapOf analyses)))"
  proof (rule sorted_sortBy)
    fix a b :: "ImprovementSuggestion \<times> nat"
    assume "\<not> cmpImprovement a b \<le> 0" thus "cmpImprovement b a \<le> 0"
      unfolding cmpImprovement_le rankedBefore_def
      by (cases "priority (fst a)"; cases "priority (fst b)") auto
  next
    fix a b c :: "ImprovementSuggestion \<times> nat"
    assume "cmpImprovement a b \<le> 0" "cmpImprovement b c \<le> 0" thus "cmpImprovement a c \<le> 0"
      unfolding cmpImprovement_le rankedBefore_def
      by (cases "priority (fst a)"; cases "priority (fst b)"; cases "priority (fst c)") auto
  qed
  thus ?thesis by (simp add: rankedImprovements_def cmpImprovement_le)
qed

lemma mapSet_absent: "mapGet m k = None \<Longrightarrow> mapSet m k v = m @ [(k, v)]"
  by (induction m) (auto split: if_splits)


lemma improveStep_new:
  "mapGet m (improvementKey s) = None \<Longrightarrow> improveStep m s = m @ [(improvementKey s, (s, 1))]"
  by (simp add: improveStep_def mapSet_absent)

lemma improveStep_merge:
  "mapGet m (improvementKey s) = Some (stored, freq) \<Longrightarrow>
   improveStep m s = mapSet m (improvementKey s)
       (stored\<lparr>examples := take 3 (setFromArray (examples stored @ examples s))\<rparr>, freq + 1)"
  by (simp add: improveStep_def)

lemma improvement_pair:
  assumes "improvementSuggestions a1 = [s1]" "improvementSuggestions a2 = [s2]"
    and "is_category s1 = is_category s2" "take 50 (issue s1) = take 50 (issue s2)"
  shows "improvementMapOf [a1, a2] =
           [(improvementKey s1,
             (s1\<lparr>examples := take 3 (setFromArray (examples s1 @ examples s2))\<rparr>, 2))]"
proof -
  have k: "improvementKey s2 = improvementKey s1" using assms by (simp add: improvementKey_def)
  have 1: "improveStep [] s1 = [(improvementKey s1, (s1, 1))]"
    by (simp add: improveStep_def)
  have 2: "improveStep [(improvementKey s1, (s1, 1))] s2 =
      [(improvementKey s1, (s1\<lparr>examples := take 3 (setFromArray (examples s1 @ examples s2))\<rparr>, 2))]"
    by (simp add: improveStep_def k)
  show ?thesis using assms(1,2) 1 2 by (simp add: improvementMapOf_def)
qed

text \<open>
  C4, as the code has it. The deduplication key of a suggestion is its category, a hyphen
  and the first 50 characters of its issue. The first occurrence of a key appends the
  suggestion with frequency 1; each later occurrence adds 1 to the frequency and replaces
  the stored examples by the first 3 of the duplicate-free union (in order of first
  appearance) of the stored and the new examples. Two analyses with one suggestion each,
  of the same category and with the same first 50 characters of the issue, give exactly
  one entry, of frequency 2, whose examples are that capped union. The ranking puts a
  higher priority first and, within one priority, a higher frequency first;
  \<open>topImprovements\<close> is its first 10 suggestions.
\<close>

theorem improvement_dedup:
  "improvementKey s = categoryStr (is_category s) @ ''-'' @ take 50 (issue s)
   \<and> (mapGet m (improvementKey s) = None \<longrightarrow>
         improveStep m s = m @ [(improvementKey s, (s, 1))])
   \<and> (\<forall>stored freq. mapGet m (improvementKey s) = Some (stored, freq) \<longrightarrow>
         improveStep m s = mapSet m (improvementKey s)
           (stored\<lparr>examples := take 3 (setFromArray (examples stored @ examples s))\<rparr>, freq + 1))
   \<and> distinct (setFromArray xs) \<and> set (setFromArray xs) = set xs
   \<and> (improvementSuggestions a1 = [s1] \<and> improvementSuggestions a2 = [s2]
        \<and> is_category s1 = is_category s2 \<and> take 50 (issue s1) = take 50 (issue s2) \<longrightarrow>
         improvementMapOf [a1, a2] =
           [(improvementKey s1,
             (s1\<lparr>examples := take 3 (setFromArray (examples s1 @ examples s2))\<rparr>, 2))])
   \<and> sorted_wrt rankedBefore (rankedImprovements analyses)
   \<and> set (rankedImprovements analyses) = snd ` set (improvementMapOf analyses)
   \<and> topImprovements analyses = map fst (take 10 (rankedImprovements analyses))
   \<and> length (topImprovements analyses) \<le> 10"
proof -
  have a: "improvementKey s = categoryStr (is_category s) @ ''-'' @ take 50 (issue s)"
    by (simp add: improvementKey_def)
  have f: "set (rankedImprovements analyses) = snd ` set (improvementMapOf analyses)"
    by (simp add: rankedImprovements_def set_sortBy)
  have g: "topImprovements analyses = map fst (take 10 (rankedImprovements analyses))"
    by (simp add: topImprovements_def)
  have h: "length (topImprovements analyses) \<le> 10" by (simp add: topImprovements_def)
  show ?thesis
    using a improveStep_new[of m s] improveStep_merge[of m s] setFromArray_set[of xs]
      improvement_pair[of a1 s1 a2 s2] ranked_sorted[of analyses] f g h
    by blast
qed

theorem improvement_dedup_witness:
  "improvementMapOf [mkAnalysis [sugA], mkAnalysis [sugB]] =
     [(''knowledge-Bot does not know the refund policy'',
       (sugA\<lparr>examples := [''x'', ''y'', ''z'']\<rparr>, 2))]
   \<and> improveStep [] sugA = [(''knowledge-Bot does not know the refund policy'', (sugA, 1))]
   \<and> map suggestion (topImprovements [mkAnalysis [sugA], mkAnalysis [sugB, sugC]])
       = [''Shorten the flow'', ''Add refund policy article'']"
proof -
  have e: "take 3 (setFromArray (examples sugA @ examples sugB)) = [''x'', ''y'', ''z'']"
    by (simp add: setFromArray_def sugA_def sugB_def)
  have k: "improvementKey sugA = ''knowledge-Bot does not know the refund policy''"
    by (simp add: improvementKey_def sugA_def)
  have h: "improvementSuggestions (mkAnalysis [sugA]) = [sugA]
         \<and> improvementSuggestions (mkAnalysis [sugB]) = [sugB]
         \<and> is_category sugA = is_category sugB \<and> take 50 (issue sugA) = take 50 (issue sugB)"
    by (simp add: mkAnalysis_def sugA_def sugB_def)
  have n: "mapGet [] (improvementKey sugA) = None" by simp
  have t: "map suggestion (topImprovements [mkAnalysis [sugA], mkAnalysis [sugB, sugC]])
       = [''Shorten the flow'', ''Add refund policy article'']"
    by (simp add: topImprovements_def rankedImprovements_def improvementMapOf_def improveStep_def
          improvementKey_def sortBy_def cmpImprovement_def setFromArray_def mkAnalysis_def
          sugA_def sugB_def sugC_def)
  from improvement_dedup [of sugA "[]" "[]" "mkAnalysis [sugA]" sugA "mkAnalysis [sugB]" sugB "[]"] h n
  have "improvementMapOf [mkAnalysis [sugA], mkAnalysis [sugB]] =
           [(improvementKey sugA,
             (sugA\<lparr>examples := take 3 (setFromArray (examples sugA @ examples sugB))\<rparr>, 2))]"
    and "improveStep [] sugA = [] @ [(improvementKey sugA, (sugA, 1))]"
    by blast+
  thus ?thesis using t by (simp add: e k)
qed

text \<open>
  C4 as stated takes the first 50 characters of the whole \<open>{category}-{issue}\<close> string
  as the key. Two suggestions of category \<open>flow\<close> whose issues agree on 45 characters
  and differ at the 46th have the same such prefix, yet the code keeps them apart, each
  with frequency 1.
\<close>

theorem improvement_key_counterexample:
  "specKey cexA = specKey cexB
   \<and> is_category cexA = is_category cexB
   \<and> improvementKey cexA \<noteq> improvementKey cexB
   \<and> map (\<lambda>(k, s, f). (suggestion s, f)) (improvementMapOf [mkAnalysis [cexA], mkAnalysis [cexB]])
       = [(''one'', 1), (''two'', 1)]"
  by (simp add: specKey_def improvementKey_def improvementMapOf_def improveStep_def mkAnalysis_def
        cexA_def cexB_def)


subsection \<open>Key metrics\<close>








subsection \<open>Alerts\<close>

lemma alerts_update:
  "generateAlerts (a\<lparr>errorRate := e\<rparr>)
     = (if e > 10 then [errorAlert e] else []) @ generateAlerts (a\<lparr>errorRate := 0\<rparr>)"
  by (simp add: generateAlerts_def errorAlert_def cong: if_cong option.case_cong)

lemma alerts_self:
  "generateAlerts a
     = (if errorRate a > 10 then [errorAlert (errorRate a)] else []) @ generateAlerts (a\<lparr>errorRate := 0\<rparr>)"
  using alerts_update[where a = a and e = "errorRate a"] by simp

lemma rest_no_error_alert:
  "filter (\<lambda>x. \<not> isErrorAlert x) (generateAlerts (a\<lparr>errorRate := 0\<rparr>)) = generateAlerts (a\<lparr>errorRate := 0\<rparr>)"
  by (simp add: generateAlerts_def isErrorAlert_def split: option.split)

lemma errorAlert_is: "isErrorAlert (errorAlert e)"
  by (simp add: isErrorAlert_def errorAlert_def)

text \<open>
  C6. Let two Analytics values differ in the error rate only, the second having the larger
  one. If the first produces the high-severity error alert (its error rate is above 10),
  so does the second. Whenever the second error rate is above 10 its alert list is the
  error alert followed by the other alerts of the first, and when the first is at most 10
  that is the first list with the error alert added in front. The alerts other than the
  error alert are the same in both lists, in the same order.
\<close>

theorem error_alert_monotone:
  assumes "errorRate a \<le> e"
  shows "(10 < errorRate a \<longrightarrow>
            (\<exists>x \<in> set (generateAlerts a). isErrorAlert x)
          \<and> (\<exists>x \<in> set (generateAlerts (a\<lparr>errorRate := e\<rparr>)). isErrorAlert x))
       \<and> (10 < e \<longrightarrow>
            generateAlerts (a\<lparr>errorRate := e\<rparr>)
              = errorAlert e # filter (\<lambda>x. \<not> isErrorAlert x) (generateAlerts a))
       \<and> (errorRate a \<le> 10 \<and> 10 < e \<longrightarrow>
            generateAlerts (a\<lparr>errorRate := e\<rparr>) = errorAlert e # generateAlerts a)
       \<and> filter (\<lambda>x. \<not> isErrorAlert x) (generateAlerts (a\<lparr>errorRate := e\<rparr>))
            = filter (\<lambda>x. \<not> isErrorAlert x) (generateAlerts a)"
proof -
  define R where "R = generateAlerts (a\<lparr>errorRate := 0\<rparr>)"
  have A: "generateAlerts a = (if errorRate a > 10 then [errorAlert (errorRate a)] else []) @ R"
    unfolding R_def by (rule alerts_self)
  have B: "generateAlerts (a\<lparr>errorRate := e\<rparr>) = (if e > 10 then [errorAlert e] else []) @ R"
    unfolding R_def by (rule alerts_update)
  have F: "filter (\<lambda>x. \<not> isErrorAlert x) R = R"
    unfolding R_def by (rule rest_no_error_alert)
  show ?thesis
    unfolding A B using assms F by (auto simp: errorAlert_is)
qed

lemma peak_eval:
  "generateAlerts peakAnalytics
     = [\<lparr>severity = Low, message = ''High traffic concentration at 1:00 (50 conversations)'',
         metric = Some ''trafficPeak'', al_value = Some 50\<rparr>]"
  by code_simp

lemma errorAlert_eval:
  "errorAlert (25 / 2) = \<lparr>severity = High, message = ''High error rate detected: 12.5%'',
                            metric = Some ''errorRate'', al_value = Some (25 / 2)\<rparr>"
  by code_simp

theorem error_alert_monotone_witness:
  "errorRate peakAnalytics \<le> 25 / 2 \<and> errorRate peakAnalytics \<le> 10 \<and> (10::rat) < 25 / 2
   \<and> generateAlerts (peakAnalytics\<lparr>errorRate := 25 / 2\<rparr>)
       = [\<lparr>severity = High, message = ''High error rate detected: 12.5%'',
           metric = Some ''errorRate'', al_value = Some (25 / 2)\<rparr>,
          \<lparr>severity = Low, message = ''High traffic concentration at 1:00 (50 conversations)'',
           metric = Some ''trafficPeak'', al_value = Some 50\<rparr>]"
proof -
  have h: "errorRate peakAnalytics \<le> 25 / 2" and h2: "errorRate peakAnalytics \<le> 10 \<and> (10::rat) < 25 / 2"
    by (simp_all add: peakAnalytics_def baseAnalytics_def)
  note k = error_alert_monotone [OF h]
  have "generateAlerts (peakAnalytics\<lparr>errorRate := 25 / 2\<rparr>) = errorAlert (25 / 2) # generateAlerts peakAnalytics"
    by (rule k[THEN conjunct2, THEN conjunct2, THEN conjunct1, THEN mp]) (rule h2)
  thus ?thesis using h h2 by (simp only: peak_eval errorAlert_eval)
qed

subsection \<open>Trend prose\<close>

text \<open>
  C8. The week-over-week comparison is to compare the mean of the last 7 daily-trend
  entries with the mean of the entries before them. With 8 daily entries of 10
  conversations each, both means are 10 and no increase should be reported; the code
  divides the single preceding entry by 7 and reports an increase of 600%.
\<close>

theorem partial_week_trend:
  "map dc_count flatWeek = [10, 10, 10, 10, 10, 10, 10, 10]
   \<and> map dc_count (sliceFrom flatWeek (- 7)) = [10, 10, 10, 10, 10, 10, 10]
   \<and> map dc_count (slice flatWeek (- 14) (- 7)) = [10]
   \<and> analyzeTrends (baseAnalytics\<lparr>dailyTrend := flatWeek\<rparr>) = ''Traffic increased 600% this week''"
  by code_simp

end
